theory Spec2Isabelle
  imports Complex_Main "HOL-Library.Char_ord" "HOL-Library.List_Lexorder"
    "HOL-Library.Product_Lexorder"
begin

section \<open>Event tables\<close>

text \<open>
  A cell of the \<open>created_at\<close> column. The raw table read from CSV holds text
  (\<open>Raw\<close>); \<open>pd.to_datetime\<close> turns a column into timestamps, counted here in
  nanoseconds as pandas does (\<open>Stamp\<close>), with \<open>NaT\<close> for a missing or
  unparsable value.
\<close>

datatype tcell = Raw string | Stamp int | NaT

text \<open>
  One row of the data frame. \<open>idx\<close> is the pandas index label of the row, which
  \<open>sort_values\<close> carries along. The other fields are the columns of
  \<open>CSV_HEADERS\<close>; \<open>None\<close> is a missing value (NaN). \<open>time_diff\<close> is the column
  that \<open>clean_data\<close> adds, in seconds.
\<close>

record event =
  idx :: nat
  type_event :: "string option"
  id_actor :: "int option"
  login_actor :: "string option"
  url_actor :: "string option"
  url_repo :: "string option"
  id_repo :: "int option"
  name_repo :: "string option"
  action_payload :: "string option"
  created_at :: tcell
  time_diff :: "rat option"

text \<open>
  A data frame: the labels of the columns it has and its rows in order. A field
  of a row whose column is not among \<open>columns\<close> carries no information.
\<close>

record table =
  columns :: "string list"
  rows :: "event list"

section \<open>data\_collection.clean\_data\<close>

text \<open>
  \<open>pd.to_datetime(..., errors='coerce')\<close> on one cell. The parser of pandas is
  a parameter: it maps text to a nanosecond count, or to \<open>None\<close> when the text
  is coerced to NaT. Values that are timestamps already are kept.
\<close>

definition to_datetime :: "(string \<Rightarrow> int option) \<Rightarrow> tcell \<Rightarrow> tcell" where
  "to_datetime parse c =
     (case c of
        Raw s \<Rightarrow> (case parse s of Some n \<Rightarrow> Stamp n | None \<Rightarrow> NaT)
      | Stamp n \<Rightarrow> Stamp n
      | NaT \<Rightarrow> NaT)"

text \<open>Lines 247-248: the conversion of the \<open>created_at\<close> column, when present.\<close>

definition convert_created_at :: "(string \<Rightarrow> int option) \<Rightarrow> table \<Rightarrow> table" where
  "convert_created_at parse df =
     (if ''created_at'' \<in> set (columns df)
      then df\<lparr>rows := map (\<lambda>r. r\<lparr>created_at := to_datetime parse (created_at r)\<rparr>) (rows df)\<rparr>
      else df)"

text \<open>
  \<open>df.sort_values(by=['id_repo', 'created_at'])\<close>. With more than one key pandas
  sorts through a lexicographic indexer (\<open>lexsort\<close>), ascending, missing values
  last in each key, rows with equal keys in their previous order. The key of a
  row is therefore a pair of pairs: the flag "missing" first (\<open>False < True\<close>),
  then the value.
\<close>

definition id_key :: "int option \<Rightarrow> bool \<times> int" where
  "id_key i = (case i of Some n \<Rightarrow> (False, n) | None \<Rightarrow> (True, 0))"

definition ts_key :: "tcell \<Rightarrow> bool \<times> int" where
  "ts_key c = (case c of Stamp n \<Rightarrow> (False, n) | _ \<Rightarrow> (True, 0))"

definition row_key :: "event \<Rightarrow> (bool \<times> int) \<times> (bool \<times> int)" where
  "row_key r = (id_key (id_repo r), ts_key (created_at r))"

definition sort_values :: "event list \<Rightarrow> event list" where
  "sort_values rs = sort_key row_key rs"

text \<open>
  The difference of two timestamps (a pandas Timedelta, in nanoseconds), NaT when
  either side is missing, and \<open>.dt.total_seconds()\<close>. Python computes the
  seconds as a float; the model keeps the exact quotient.
\<close>

definition timedelta :: "tcell \<Rightarrow> tcell \<Rightarrow> int option" where
  "timedelta cur prev =
     (case cur of
        Stamp a \<Rightarrow> (case prev of Stamp b \<Rightarrow> Some (a - b) | _ \<Rightarrow> None)
      | _ \<Rightarrow> None)"

definition total_seconds :: "int option \<Rightarrow> rat option" where
  "total_seconds d = (case d of Some n \<Rightarrow> Some (of_int n / 1000000000) | None \<Rightarrow> None)"

text \<open>
  \<open>df['time_diff'] = df.groupby('id_repo')['created_at'].diff().dt.total_seconds()\<close>:
  one pass over the rows in frame order, remembering for every repository id the
  \<open>created_at\<close> of its latest row so far. The first row of a group gets a missing
  value; a row whose \<open>id_repo\<close> is missing belongs to no group (\<open>groupby\<close> drops
  missing keys) and gets a missing value as well.
\<close>

fun groupby_diff :: "(int \<rightharpoonup> tcell) \<Rightarrow> event list \<Rightarrow> event list" where
  "groupby_diff seen [] = []"
| "groupby_diff seen (r # rs) =
     (case id_repo r of
        None \<Rightarrow> r\<lparr>time_diff := None\<rparr> # groupby_diff seen rs
      | Some g \<Rightarrow>
          r\<lparr>time_diff :=
              (case seen g of
                 None \<Rightarrow> None
               | Some p \<Rightarrow> total_seconds (timedelta (created_at r) p))\<rparr>
            # groupby_diff (seen(g \<mapsto> created_at r)) rs)"

text \<open>Lines 251-253: sort, then add the \<open>time_diff\<close> column.\<close>

definition sort_and_diff :: "table \<Rightarrow> table" where
  "sort_and_diff df =
     (if ''id_repo'' \<in> set (columns df) \<and> ''created_at'' \<in> set (columns df)
      then \<lparr>columns = (if ''time_diff'' \<in> set (columns df) then columns df
                       else columns df @ [''time_diff'']),
            rows = groupby_diff Map.empty (sort_values (rows df))\<rparr>
      else df)"

text \<open>
  Lines 256-260: the row-wise rule. \<open>row.get('action_payload')\<close> is \<open>None\<close> when
  the frame has no such column, and then never equals \<open>'started'\<close>.
\<close>

definition relabel_row :: "string list \<Rightarrow> event \<Rightarrow> event" where
  "relabel_row cols r =
     (if type_event r = Some ''WatchEvent''
         \<and> ''action_payload'' \<in> set cols \<and> action_payload r = Some ''started''
      then r\<lparr>type_event := Some ''StarEvent''\<rparr>
      else r)"

definition relabel :: "table \<Rightarrow> table" where
  "relabel df =
     (if ''type_event'' \<in> set (columns df)
      then df\<lparr>rows := map (relabel_row (columns df)) (rows df)\<rparr>
      else df)"

definition clean_data :: "(string \<Rightarrow> int option) \<Rightarrow> table \<Rightarrow> table" where
  "clean_data parse df = relabel (sort_and_diff (convert_created_at parse df))"

text \<open>The columns that \<open>process_files\<close> writes (\<open>CSV_HEADERS\<close>).\<close>

definition CSV_HEADERS :: "string list" where
  "CSV_HEADERS = [''type_event'', ''id_actor'', ''login_actor'', ''url_actor'',
     ''url_repo'', ''id_repo'', ''name_repo'', ''action_payload'', ''created_at'']"

text \<open>A row with every field missing, to build concrete rows from.\<close>

definition blank :: event where
  "blank = \<lparr>idx = 0, type_event = None, id_actor = None, login_actor = None,
     url_actor = None, url_repo = None, id_repo = None, name_repo = None,
     action_payload = None, created_at = NaT, time_diff = None\<rparr>"

section \<open>process\_mining\<close>

text \<open>
  How a call ends when it does not return: \<open>exit(n)\<close> (\<open>SystemExit\<close>, which
  \<open>except Exception\<close> does not catch), a \<open>KeyError\<close> for a column the frame
  does not have, or another exception that nothing catches.
\<close>

datatype failure = SystemExit int | KeyError string | Exception string

text \<open>\<open>Series.dropna()\<close> and \<open>Series.unique()\<close> (order of first appearance).\<close>

definition dropna :: "'a option list \<Rightarrow> 'a list" where
  "dropna xs = List.map_filter (\<lambda>x. x) xs"

fun unique :: "'a list \<Rightarrow> 'a list" where
  "unique [] = []"
| "unique (x # xs) = x # unique (filter (\<lambda>y. y \<noteq> x) xs)"

subsection \<open>load\_cleaned\_csv\<close>

text \<open>
  \<open>pd.concat(data, ignore_index=True)\<close>: the columns are the union of the
  frames' columns in order of first appearance, the rows follow each other, a
  cell of a column that the row's own frame lacks is missing, and the index is
  renumbered from 0.
\<close>

definition restrict :: "string list \<Rightarrow> event \<Rightarrow> event" where
  "restrict cols r =
     \<lparr>idx = idx r,
      type_event = (if ''type_event'' \<in> set cols then type_event r else None),
      id_actor = (if ''id_actor'' \<in> set cols then id_actor r else None),
      login_actor = (if ''login_actor'' \<in> set cols then login_actor r else None),
      url_actor = (if ''url_actor'' \<in> set cols then url_actor r else None),
      url_repo = (if ''url_repo'' \<in> set cols then url_repo r else None),
      id_repo = (if ''id_repo'' \<in> set cols then id_repo r else None),
      name_repo = (if ''name_repo'' \<in> set cols then name_repo r else None),
      action_payload = (if ''action_payload'' \<in> set cols then action_payload r else None),
      created_at = (if ''created_at'' \<in> set cols then created_at r else NaT),
      time_diff = (if ''time_diff'' \<in> set cols then time_diff r else None)\<rparr>"

definition reindex :: "event list \<Rightarrow> event list" where
  "reindex rs = map (\<lambda>(i, r). r\<lparr>idx := i\<rparr>) (zip [0..<length rs] rs)"

definition concat_frames :: "table list \<Rightarrow> table" where
  "concat_frames data =
     \<lparr>columns = unique (concat (map columns data)),
      rows = reindex (concat (map (\<lambda>df. map (restrict (columns df)) (rows df)) data))\<rparr>"

text \<open>
  The argument lists the \<open>.csv\<close> files of the cleaned directory as
  \<open>pd.read_csv\<close> sees them: \<open>None\<close> when reading raises (the file is then
  reported and skipped), the frame otherwise. \<open>exit()\<close> without an argument is
  exit status 0.
\<close>

definition load_cleaned_csv ::
  "(string \<Rightarrow> int option) \<Rightarrow> table option list \<Rightarrow> failure + table" where
  "load_cleaned_csv parse files =
     (let data = map (convert_created_at parse) (dropna files)
      in if data = [] then Inl (SystemExit 0) else Inr (concat_frames data))"

subsection \<open>Process logs (pm4py)\<close>

text \<open>
  One event of a formatted log: the activity (\<open>concept:name\<close>) and the timestamp
  (\<open>time:timestamp\<close>, nanoseconds).
\<close>

record log_event =
  concept_name :: string
  time_timestamp :: int

text \<open>
  \<open>pm4py.format_dataframe\<close> on the rows of one repository, which all carry the
  same case id: timestamp text is converted, rows with a missing activity or
  timestamp are dropped, and the rest is sorted by timestamp, rows with equal
  timestamps in frame order.
\<close>

definition format_dataframe :: "(string \<Rightarrow> int option) \<Rightarrow> event list \<Rightarrow> log_event list" where
  "format_dataframe parse rs =
     sort_key time_timestamp
       (List.map_filter
          (\<lambda>r. case type_event r of
                 None \<Rightarrow> None
               | Some a \<Rightarrow>
                   (case to_datetime parse (created_at r) of
                      Stamp t \<Rightarrow> Some \<lparr>concept_name = a, time_timestamp = t\<rparr>
                    | _ \<Rightarrow> None))
          rs)"

text \<open>
  \<open>dfg_algorithm.apply(log)\<close> on a log of one case: the log is ordered by
  timestamp (rows with equal timestamps keep their order), and every pair of
  adjacent activities is counted. The dictionary is an association list with one
  entry for each distinct pair.
\<close>

definition directly_follows :: "string list \<Rightarrow> (string \<times> string) list" where
  "directly_follows acts = zip acts (tl acts)"

definition dfg_apply :: "log_event list \<Rightarrow> ((string \<times> string) \<times> nat) list" where
  "dfg_apply lg =
     (let pairs = directly_follows (map concept_name (sort_key time_timestamp lg))
      in map (\<lambda>e. (e, count_list pairs e)) (unique pairs))"

subsection \<open>extract\_dfg\_metrics\<close>

record dfg_metrics =
  num_nodi :: nat
  num_archi :: nat
  densita_dfg :: rat

text \<open>
  Python's \<open>/\<close> on two integers is a float; the model keeps the exact quotient.
  Comparisons of the quotient with 0, 1 and 2 are the same for both, as rounding
  is monotone and these numbers are floats.
\<close>

definition extract_dfg_metrics :: "log_event list \<Rightarrow> dfg_metrics" where
  "extract_dfg_metrics lg =
     (let dfg = dfg_apply lg;
          ks = map fst dfg;
          n = card (set (map fst ks @ map snd ks));
          m = length dfg;
          densita = (if n > 1 then of_nat m / of_nat (n * (n - 1)) else 0)
      in \<lparr>num_nodi = n, num_archi = m, densita_dfg = densita\<rparr>)"

subsection \<open>extract\_features\_from\_log\<close>

record ml_features =
  percentuale_StarEvent :: rat
  tempo_medio_eventi :: rat

text \<open>
  \<open>Series.diff()\<close> without its leading NaT, and the mean of a Timedelta series:
  pandas divides the sum by the count in floating point and casts the quotient
  to a whole number of nanoseconds, which truncates towards zero.
  \<open>total_seconds()\<close> of that single Timedelta adds its days, seconds and
  microseconds and leaves the nanoseconds below a microsecond out. The log is
  sorted by timestamp first; how rows with equal timestamps are ordered changes
  neither the frequencies nor the differences.
\<close>

definition diff :: "int list \<Rightarrow> int list" where
  "diff ts = map (\<lambda>(a, b). b - a) (zip ts (tl ts))"

definition timedelta_mean :: "int list \<Rightarrow> int" where
  "timedelta_mean ds =
     (let s = sum_list ds; c = int (length ds)
      in if s \<ge> 0 then s div c else - ((- s) div c))"

definition timedelta_total_seconds :: "int \<Rightarrow> rat" where
  "timedelta_total_seconds ns = of_int (ns div 1000) / 1000000"

definition extract_features_from_log :: "log_event list \<Rightarrow> ml_features" where
  "extract_features_from_log lg =
     (let sorted_log = sort_key time_timestamp lg;
          acts = map concept_name sorted_log;
          star = (if ''StarEvent'' \<in> set acts
                  then of_nat (count_list acts ''StarEvent'') / of_nat (length acts)
                  else 0);
          tempo_medio = (if length sorted_log > 1
                         then timedelta_total_seconds
                                (timedelta_mean (diff (map time_timestamp sorted_log)))
                         else 0)
      in \<lparr>percentuale_StarEvent = star, tempo_medio_eventi = tempo_medio\<rparr>)"

subsection \<open>load\_trending\_repositories\<close>

text \<open>
  What \<open>pd.read_csv(TRENDING_REPO_FILE)\<close> gives: an exception (the file is
  absent, unreadable or empty), or a frame, of which only the \<open>repository\<close>
  column matters, \<open>None\<close> when the frame has no such column.
\<close>

datatype trending_file = Unreadable | Frame "string option list option"

text \<open>
  Every failure inside the \<open>try\<close> block ends in the \<open>except\<close> branch and
  \<open>exit(1)\<close>: the exception of \<open>read_csv\<close>, the \<open>KeyError\<close> of a missing
  column and, for an empty list, the error raised by the message at line 126,
  which formats the name \<open>e\<close> before anything is bound to it.
\<close>

definition load_trending_repositories :: "trending_file \<Rightarrow> failure + string list" where
  "load_trending_repositories f =
     (case f of
        Unreadable \<Rightarrow> Inl (SystemExit 1)
      | Frame None \<Rightarrow> Inl (SystemExit 1)
      | Frame (Some col) \<Rightarrow>
          (let trending_repos = unique (dropna col)
           in if trending_repos = [] then Inl (SystemExit 1) else Inr trending_repos))"

subsection \<open>load\_non\_trending\_repositories\<close>

text \<open>
  \<open>data.groupby('name_repo').groups.keys()\<close>: \<open>groupby\<close> sorts the group keys
  (\<open>sort=True\<close> is its default) and drops missing ones, so the keys are the
  distinct repository names in ascending order. Strings are compared character
  by character.
\<close>

definition group_keys :: "event list \<Rightarrow> string list" where
  "group_keys rs = sort (remdups (dropna (map name_repo rs)))"

text \<open>
  The loop of lines 147-152 over the remaining keys, with the list built so
  far. The size test follows the membership test in every iteration.
\<close>

fun filter_repos :: "nat \<Rightarrow> string list \<Rightarrow> string list \<Rightarrow> string list \<Rightarrow> string list" where
  "filter_repos max_repos trending_repos filtered_repos [] = filtered_repos"
| "filter_repos max_repos trending_repos filtered_repos (repo_name # ks) =
     (let filtered_repos' =
            (if repo_name \<notin> set trending_repos then filtered_repos @ [repo_name]
             else filtered_repos)
      in if length filtered_repos' \<ge> max_repos then filtered_repos'
         else filter_repos max_repos trending_repos filtered_repos' ks)"

definition load_non_trending_repositories :: "table \<Rightarrow> string list \<Rightarrow> failure + string list" where
  "load_non_trending_repositories data trending_repos =
     (if ''name_repo'' \<notin> set (columns data) then Inl (KeyError ''name_repo'')
      else Inr (filter_repos (length trending_repos) trending_repos []
                  (group_keys (rows data))))"

subsection \<open>generate\_process\_models\_and\_features\<close>

record feature_row =
  repo_name :: string
  virale :: bool
  dfg_metrics :: dfg_metrics
  ml_features :: ml_features

text \<open>
  A frame of feature rows. \<open>pd.DataFrame(df_features)\<close> takes its columns
  from the rows it is given, so the frame of an empty list has no column at
  all; a frame read from a file has the columns of the header, with or without
  rows.
\<close>

datatype feature_frame = No_Columns | Feature_Table "feature_row list"

definition DataFrame :: "feature_row list \<Rightarrow> feature_frame" where
  "DataFrame df_features =
     (if df_features = [] then No_Columns else Feature_Table df_features)"

definition frame_rows :: "feature_frame \<Rightarrow> feature_row list" where
  "frame_rows df = (case df of No_Columns \<Rightarrow> [] | Feature_Table rs \<Rightarrow> rs)"

text \<open>
  The loop over \<open>repo_list_virale + repo_list_non_virale\<close>. \<open>date_str\<close> is the
  UTC date of the run. A repository without rows is reported and skipped.
  \<open>dati['name_repo']\<close> raises for a frame without that column, and
  \<open>format_dataframe\<close> raises when the activity or the timestamp column is
  absent. Drawing and saving the picture of the graph has its own \<open>try\<close> and
  does not touch the features; it is left out.
\<close>

fun process_repos ::
  "(string \<Rightarrow> int option) \<Rightarrow> string \<Rightarrow> table \<Rightarrow> string list \<Rightarrow> string list
     \<Rightarrow> failure + feature_row list" where
  "process_repos parse date_str dati repo_list_virale [] = Inr []"
| "process_repos parse date_str dati repo_list_virale (name # rest) =
     (if ''name_repo'' \<notin> set (columns dati) then Inl (KeyError ''name_repo'')
      else
        (let dati_repo = filter (\<lambda>r. name_repo r = Some name) (rows dati)
         in if dati_repo = [] then process_repos parse date_str dati repo_list_virale rest
            else if ''type_event'' \<notin> set (columns dati) \<or> ''created_at'' \<notin> set (columns dati)
            then Inl (Exception ''format_dataframe'')
            else
              (let lg = format_dataframe parse dati_repo;
                   repo_features =
                     \<lparr>repo_name = name @ ''_'' @ date_str,
                      virale = (name \<in> set repo_list_virale),
                      dfg_metrics = extract_dfg_metrics lg,
                      ml_features = extract_features_from_log lg\<rparr>
               in case process_repos parse date_str dati repo_list_virale rest of
                    Inl e \<Rightarrow> Inl e
                  | Inr df_features \<Rightarrow> Inr (repo_features # df_features))))"

text \<open>Line 211 returns the frame built from the list of rows.\<close>

definition generate_process_models_and_features ::
  "(string \<Rightarrow> int option) \<Rightarrow> string \<Rightarrow> table \<Rightarrow> string list \<Rightarrow> string list
     \<Rightarrow> failure + feature_frame" where
  "generate_process_models_and_features parse date_str dati repo_list_virale repo_list_non_virale =
     (case process_repos parse date_str dati repo_list_virale
             (repo_list_virale @ repo_list_non_virale) of
        Inl e \<Rightarrow> Inl e
      | Inr df_features \<Rightarrow> Inr (DataFrame df_features))"

subsection \<open>main\<close>

text \<open>
  The persisted feature table \<open>data/process_model_features.csv\<close>: no such
  file, a file that \<open>read_csv\<close> rejects, or a table of rows.
\<close>

datatype features_file = Absent | Unparsable | Features "feature_row list"

text \<open>What a run reads and writes, and the date it runs on.\<close>

record world =
  cleaned_csv :: "table option list"
  trending_csv :: trending_file
  features_csv :: features_file
  today :: string

text \<open>Lines 215-222: the frame of feature rows of the run.\<close>

definition run_features :: "(string \<Rightarrow> int option) \<Rightarrow> world \<Rightarrow> failure + feature_frame" where
  "run_features parse w =
     (case load_cleaned_csv parse (cleaned_csv w) of
        Inl e \<Rightarrow> Inl e
      | Inr data \<Rightarrow>
          (case load_trending_repositories (trending_csv w) of
             Inl e \<Rightarrow> Inl e
           | Inr repo_list_virale \<Rightarrow>
               (case load_non_trending_repositories data repo_list_virale of
                  Inl e \<Rightarrow> Inl e
                | Inr repo_list_non_virale \<Rightarrow>
                    generate_process_models_and_features parse (today w) data
                      repo_list_virale repo_list_non_virale)))"

text \<open>
  \<open>pd.concat([df_existing, df_features], ignore_index=True)\<close>: the rows of
  the first frame followed by those of the second; the result has columns as
  soon as one of the two has.
\<close>

definition concat_features :: "feature_frame \<Rightarrow> feature_frame \<Rightarrow> feature_frame" where
  "concat_features a b =
     (case a of
        No_Columns \<Rightarrow> b
      | Feature_Table rs \<Rightarrow> Feature_Table (rs @ frame_rows b))"

text \<open>Lines 228-234: the old table, when there is one, followed by the new rows.\<close>

definition accumulate :: "features_file \<Rightarrow> feature_frame \<Rightarrow> failure + feature_frame" where
  "accumulate existing df_features =
     (case existing of
        Absent \<Rightarrow> Inr df_features
      | Unparsable \<Rightarrow> Inl (Exception ''read_csv'')
      | Features df_existing \<Rightarrow> Inr (concat_features (Feature_Table df_existing) df_features))"

text \<open>
  \<open>df_final.to_csv(features_path, index=False)\<close>: a frame with columns is
  written as a header and one line for each row. The frame without columns is
  written as a file that holds a line break and nothing else, and \<open>read_csv\<close>
  rejects such a file (\<open>EmptyDataError\<close>).
\<close>

definition to_csv :: "feature_frame \<Rightarrow> features_file" where
  "to_csv df = (case df of No_Columns \<Rightarrow> Unparsable | Feature_Table rs \<Rightarrow> Features rs)"

text \<open>
  A run returns how it ended and the world it leaves: \<open>None\<close> for a run that
  reached its last line, the failure otherwise. Only line 237 writes.
\<close>

definition main :: "(string \<Rightarrow> int option) \<Rightarrow> world \<Rightarrow> failure option \<times> world" where
  "main parse w =
     (case run_features parse w of
        Inl e \<Rightarrow> (Some e, w)
      | Inr df_features \<Rightarrow>
          (case accumulate (features_csv w) df_features of
             Inl e \<Rightarrow> (Some e, w)
           | Inr df_final \<Rightarrow> (None, w\<lparr>features_csv := to_csv df_final\<rparr>)))"

section \<open>Notions of the specification\<close>

text \<open>
  The order of timestamps with missing values last: \<open>not_after a b\<close> says that
  \<open>a\<close> may stand before \<open>b\<close> in an ascending column.
\<close>

definition not_after :: "tcell \<Rightarrow> tcell \<Rightarrow> bool" where
  "not_after a b =
     (case b of
        Stamp y \<Rightarrow> (case a of Stamp x \<Rightarrow> x \<le> y | _ \<Rightarrow> False)
      | _ \<Rightarrow> True)"

text \<open>
  The seconds from the timestamp \<open>prev\<close> to the timestamp \<open>cur\<close>, missing
  when either of them is missing.
\<close>

definition gap_seconds :: "tcell \<Rightarrow> tcell \<Rightarrow> rat option" where
  "gap_seconds prev cur =
     (case prev of
        Stamp a \<Rightarrow> (case cur of Stamp b \<Rightarrow> Some (of_int (b - a) / 1000000000) | _ \<Rightarrow> None)
      | _ \<Rightarrow> None)"

text \<open>
  \<open>Series.diff\<close> followed by \<open>total_seconds\<close> on the rows of one group taken
  alone: \<open>prev\<close> is the timestamp of the row before, \<open>None\<close> at the start.
\<close>

fun series_diff :: "tcell option \<Rightarrow> event list \<Rightarrow> event list" where
  "series_diff prev [] = []"
| "series_diff prev (r # rs) =
     r\<lparr>time_diff :=
         (case prev of
            None \<Rightarrow> None
          | Some p \<Rightarrow> total_seconds (timedelta (created_at r) p))\<rparr>
       # series_diff (Some (created_at r)) rs"

text \<open>
  The repositories of the corpus that are not in the viral list, and the
  repository names of the corpus in the order in which they first occur.
\<close>

definition eligible :: "table \<Rightarrow> string list \<Rightarrow> string set" where
  "eligible data trending_repos =
     {n \<in> set (dropna (map name_repo (rows data))). n \<notin> set trending_repos}"

definition first_encountered :: "table \<Rightarrow> string list" where
  "first_encountered data = unique (dropna (map name_repo (rows data)))"

text \<open>
  A trending list that is unreadable, lacks the \<open>repository\<close> column, or
  names no repository.
\<close>

definition unusable :: "trending_file \<Rightarrow> bool" where
  "unusable f =
     (case f of
        Unreadable \<Rightarrow> True
      | Frame None \<Rightarrow> True
      | Frame (Some col) \<Rightarrow> dropna col = [])"

text \<open>A graph without an edge from an activity to itself.\<close>

definition loop_free :: "((string \<times> string) \<times> nat) list \<Rightarrow> bool" where
  "loop_free dfg = list_all (\<lambda>e. fst (fst e) \<noteq> snd (fst e)) dfg"

section \<open>Concrete inputs\<close>

text \<open>
  A parser for the three timestamps of the scenario of the specification
  (0, 10 and 30 seconds after the epoch); any other text is unparsable.
\<close>

definition scenario_parse :: "string \<Rightarrow> int option" where
  "scenario_parse =
     map_of
       [(''1970-01-01T00:00:00Z'', 0),
        (''1970-01-01T00:00:10Z'', 10000000000),
        (''1970-01-01T00:00:30Z'', 30000000000)]"

text \<open>The raw table of the scenario: three events of repository \<open>R\<close>.\<close>

definition scenario_df :: table where
  "scenario_df =
     \<lparr>columns = CSV_HEADERS,
      rows =
        [blank\<lparr>idx := 0, type_event := Some ''WatchEvent'', id_repo := Some 1,
           name_repo := Some ''R'', action_payload := Some ''started'',
           created_at := Raw ''1970-01-01T00:00:00Z''\<rparr>,
         blank\<lparr>idx := 1, type_event := Some ''PushEvent'', id_repo := Some 1,
           name_repo := Some ''R'', created_at := Raw ''1970-01-01T00:00:10Z''\<rparr>,
         blank\<lparr>idx := 2, type_event := Some ''WatchEvent'', id_repo := Some 1,
           name_repo := Some ''R'', action_payload := Some ''started'',
           created_at := Raw ''1970-01-01T00:00:30Z''\<rparr>]\<rparr>"

text \<open>The log of repository \<open>R\<close> built from the normalized scenario table.\<close>

definition scenario_log :: "log_event list" where
  "scenario_log =
     format_dataframe scenario_parse
       (filter (\<lambda>r. name_repo r = Some ''R'')
          (rows (clean_data scenario_parse scenario_df)))"

text \<open>A raw table with a single event, made by an automated account.\<close>

definition bot_df :: table where
  "bot_df =
     \<lparr>columns = CSV_HEADERS,
      rows =
        [blank\<lparr>idx := 0, type_event := Some ''PushEvent'', id_actor := Some 49699333,
           login_actor := Some ''dependabot[bot]'', id_repo := Some 1,
           name_repo := Some ''R'', created_at := Raw ''1970-01-01T00:00:00Z''\<rparr>]\<rparr>"

text \<open>A log in which a push directly follows a push.\<close>

definition self_loop_log :: "log_event list" where
  "self_loop_log =
     [\<lparr>concept_name = ''PushEvent'', time_timestamp = 0\<rparr>,
      \<lparr>concept_name = ''PushEvent'', time_timestamp = 1000000000\<rparr>,
      \<lparr>concept_name = ''StarEvent'', time_timestamp = 2000000000\<rparr>,
      \<lparr>concept_name = ''PushEvent'', time_timestamp = 3000000000\<rparr>]"

text \<open>
  A corpus of two repositories in which the name that occurs first is not the
  smaller one, with two events that share repository and timestamp.
\<close>

definition order_df :: table where
  "order_df =
     \<lparr>columns = CSV_HEADERS,
      rows =
        [blank\<lparr>idx := 0, type_event := Some ''PushEvent'', id_repo := Some 1,
           name_repo := Some ''b/x'', created_at := Raw ''1970-01-01T00:00:10Z''\<rparr>,
         blank\<lparr>idx := 1, type_event := Some ''ForkEvent'', id_repo := Some 1,
           name_repo := Some ''b/x'', created_at := Raw ''1970-01-01T00:00:10Z''\<rparr>,
         blank\<lparr>idx := 2, type_event := Some ''PushEvent'', id_repo := Some 2,
           name_repo := Some ''a/y'', created_at := Raw ''1970-01-01T00:00:00Z''\<rparr>,
         blank\<lparr>idx := 3, type_event := Some ''IssuesEvent'', id_repo := Some 1,
           name_repo := Some ''b/x'', created_at := Raw ''1970-01-01T00:00:00Z''\<rparr>]\<rparr>"

definition order_corpus :: table where
  "order_corpus = clean_data scenario_parse order_df"

text \<open>
  A world for a second run on the same day: the cleaned scenario table, a
  trending list that names \<open>R\<close>, and a feature table that holds the row of
  the first run.
\<close>

definition scenario_row :: feature_row where
  "scenario_row =
     \<lparr>repo_name = ''R_2025-01-01'', virale = True,
      dfg_metrics = \<lparr>num_nodi = 2, num_archi = 2, densita_dfg = 1\<rparr>,
      ml_features = \<lparr>percentuale_StarEvent = 2 / 3, tempo_medio_eventi = 15\<rparr>\<rparr>"

definition scenario_world :: world where
  "scenario_world =
     \<lparr>cleaned_csv = [Some (clean_data scenario_parse scenario_df)],
      trending_csv = Frame (Some [Some ''R'']),
      features_csv = Features [scenario_row],
      today = ''2025-01-01''\<rparr>"

text \<open>
  A world for a first run that produces no row: the only cleaned file has the
  header and no event, the trending list names a repository, and there is no
  feature table yet.
\<close>

definition empty_world :: world where
  "empty_world =
     \<lparr>cleaned_csv = [Some (clean_data scenario_parse (scenario_df\<lparr>rows := []\<rparr>))],
      trending_csv = Frame (Some [Some ''t/t'']),
      features_csv = Absent,
      today = ''2025-01-01''\<rparr>"

section \<open>The relabelling rule\<close>

text \<open>
  Claim C5. Applying the StarEvent rule of \<open>clean_data\<close> to a table twice
  gives the same table as applying it once: a relabelled row no longer has the
  type \<open>WatchEvent\<close>, so the rule leaves it alone.
\<close>

theorem relabel_idempotent: "relabel (relabel df) = relabel df"
  by (simp add: relabel_def relabel_row_def comp_def)

section \<open>Automated accounts\<close>

text \<open>
  Claim C1. The docstring of \<open>clean_data\<close> announces that events of bot
  actors are excluded, but no step of the function looks at the actor: the
  single event of \<open>dependabot[bot]\<close> is still in the table that
  \<open>clean_data\<close> returns.
\<close>

theorem clean_data_keeps_bot_row:
  "map login_actor (rows (clean_data scenario_parse bot_df)) = [Some ''dependabot[bot]'']"
  by code_simp

section \<open>The scenario of the specification\<close>

text \<open>
  Claim C10. For the three events of repository \<open>R\<close> at 0, 10 and 30 seconds
  with types WatchEvent (started), PushEvent, WatchEvent (started), the
  normalized types are StarEvent, PushEvent, StarEvent; the graph has the edges
  (StarEvent, PushEvent) and (PushEvent, StarEvent), each counted once; there are
  2 nodes and 2 edges, the density is 1, the share of StarEvent is 2/3 and the
  mean time between events is 15 seconds. The run that loads the normalized
  table with \<open>R\<close> as the only trending repository produces the one feature
  row with these values.
\<close>

theorem scenario_features:
  "map type_event (rows (clean_data scenario_parse scenario_df))
     = [Some ''StarEvent'', Some ''PushEvent'', Some ''StarEvent'']
   \<and> dfg_apply scenario_log
     = [((''StarEvent'', ''PushEvent''), 1), ((''PushEvent'', ''StarEvent''), 1)]
   \<and> extract_dfg_metrics scenario_log = \<lparr>num_nodi = 2, num_archi = 2, densita_dfg = 1\<rparr>
   \<and> extract_features_from_log scenario_log
     = \<lparr>percentuale_StarEvent = 2 / 3, tempo_medio_eventi = 15\<rparr>
   \<and> run_features scenario_parse scenario_world = Inr (Feature_Table [scenario_row])"
  by code_simp

section \<open>The trending list\<close>

lemma load_trending_unusable:
  "unusable f \<Longrightarrow> load_trending_repositories f = Inl (SystemExit 1)"
  by (auto simp: unusable_def load_trending_repositories_def
      split: trending_file.splits option.splits)

text \<open>
  Claim C8. When the trending list is unreadable, lacks its \<open>repository\<close>
  column or names no repository, \<open>load_trending_repositories\<close> ends with
  \<open>exit(1)\<close>, the run produces no feature row, and \<open>main\<close> exits and leaves
  the world as it found it. The exit status is 1, or 0 when no cleaned file
  could be loaded, since \<open>load_cleaned_csv\<close> is called first and exits then.
\<close>

theorem unusable_trending_aborts:
  assumes "unusable (trending_csv w)"
  shows "load_trending_repositories (trending_csv w) = Inl (SystemExit 1)
    \<and> run_features parse w
        = Inl (SystemExit (if dropna (cleaned_csv w) = [] then 0 else 1))
    \<and> main parse w
        = (Some (SystemExit (if dropna (cleaned_csv w) = [] then 0 else 1)), w)"
proof -
  have lt: "load_trending_repositories (trending_csv w) = Inl (SystemExit 1)"
    using assms by (rule load_trending_unusable)
  have rf: "run_features parse w
      = Inl (SystemExit (if dropna (cleaned_csv w) = [] then 0 else 1))"
    by (simp add: run_features_def lt load_cleaned_csv_def Let_def)
  then have "main parse w
      = (Some (SystemExit (if dropna (cleaned_csv w) = [] then 0 else 1)), w)"
    by (simp add: main_def)
  with lt rf show ?thesis by blast
qed

text \<open>
  The theorem at the scenario world with each kind of unusable trending file:
  one whose only cell is empty, one without the column, and an unreadable one.
\<close>

theorem unusable_trending_aborts_witness:
  "unusable (trending_csv (scenario_world\<lparr>trending_csv := Frame (Some [None])\<rparr>))
   \<and> main scenario_parse (scenario_world\<lparr>trending_csv := Frame (Some [None])\<rparr>)
       = (Some (SystemExit 1), scenario_world\<lparr>trending_csv := Frame (Some [None])\<rparr>)
   \<and> unusable (trending_csv (scenario_world\<lparr>trending_csv := Frame None\<rparr>))
   \<and> (\<exists>c. main scenario_parse (scenario_world\<lparr>trending_csv := Frame None\<rparr>)
       = (Some (SystemExit c), scenario_world\<lparr>trending_csv := Frame None\<rparr>))
   \<and> unusable (trending_csv (scenario_world\<lparr>trending_csv := Unreadable\<rparr>))
   \<and> (\<exists>c. main scenario_parse (scenario_world\<lparr>trending_csv := Unreadable\<rparr>)
       = (Some (SystemExit c), scenario_world\<lparr>trending_csv := Unreadable\<rparr>))"
proof -
  have h1: "unusable (trending_csv (scenario_world\<lparr>trending_csv := Frame (Some [None])\<rparr>))"
    by code_simp
  have m1: "main scenario_parse (scenario_world\<lparr>trending_csv := Frame (Some [None])\<rparr>)
       = (Some (SystemExit 1), scenario_world\<lparr>trending_csv := Frame (Some [None])\<rparr>)"
    by code_simp
  have h2: "unusable (trending_csv (scenario_world\<lparr>trending_csv := Frame None\<rparr>))"
    by code_simp
  have h3: "unusable (trending_csv (scenario_world\<lparr>trending_csv := Unreadable\<rparr>))"
    by code_simp
  from unusable_trending_aborts [OF h1, of scenario_parse]
    unusable_trending_aborts [OF h2, of scenario_parse]
    unusable_trending_aborts [OF h3, of scenario_parse] h1 h2 h3 m1
  show ?thesis by blast
qed

section \<open>The feature table\<close>

text \<open>
  What the accumulation does whenever the frame written has columns: with a
  table \<open>old\<close> on disk the table written is \<open>old\<close> followed by the rows of
  the run, none changed or removed; without a table and with at least one row
  the table written holds the rows of the run.
\<close>

lemma main_appends_to_table:
  assumes "run_features parse w = Inr df_features" and "features_csv w = Features old"
  shows "main parse w = (None, w\<lparr>features_csv := Features (old @ frame_rows df_features)\<rparr>)"
  using assms by (simp add: main_def accumulate_def concat_features_def to_csv_def)

lemma main_writes_first_table:
  assumes "run_features parse w = Inr (Feature_Table new)" and "features_csv w = Absent"
  shows "main parse w = (None, w\<lparr>features_csv := Features new\<rparr>)"
  using assms by (simp add: main_def accumulate_def to_csv_def)

text \<open>
  Claim C9. The claim says that a run without a table on disk leaves exactly
  its \<open>n\<close> new rows as the table, for \<open>n = 0\<close> as for any other number. A
  first run that produces no row ends normally, but the frame it writes has no
  columns: the file it leaves is not a table that line 229 can read, and the
  next run, which has a row to append, ends in the exception of \<open>read_csv\<close>
  and leaves the file as it is.
\<close>

theorem empty_run_leaves_unreadable_table:
  "run_features scenario_parse empty_world = Inr No_Columns
   \<and> main scenario_parse empty_world = (None, empty_world\<lparr>features_csv := Unparsable\<rparr>)
   \<and> run_features scenario_parse
        (scenario_world\<lparr>features_csv := features_csv (snd (main scenario_parse empty_world))\<rparr>)
       = Inr (Feature_Table [scenario_row])
   \<and> main scenario_parse
        (scenario_world\<lparr>features_csv := features_csv (snd (main scenario_parse empty_world))\<rparr>)
       = (Some (Exception ''read_csv''), scenario_world\<lparr>features_csv := Unparsable\<rparr>)"
  by code_simp

section \<open>The control group\<close>

text \<open>
  The loop returns the list built so far followed by a prefix of the eligible
  keys; when the list is still shorter than \<open>max_repos\<close>, the prefix fills
  it up to \<open>max_repos\<close> as far as the keys reach.
\<close>

lemma filter_repos_prefix:
  "\<exists>n. filter_repos m tr acc ks = acc @ take n (filter (\<lambda>k. k \<notin> set tr) ks)"
proof (induction ks arbitrary: acc)
  case Nil
  show ?case by simp
next
  case (Cons k ks)
  show ?case
  proof (cases "k \<in> set tr")
    case True
    show ?thesis
    proof (cases "m \<le> length acc")
      case True
      with \<open>k \<in> set tr\<close>
      have "filter_repos m tr acc (k # ks) = acc @ take 0 (filter (\<lambda>k. k \<notin> set tr) (k # ks))"
        by simp
      then show ?thesis by blast
    next
      case False
      with \<open>k \<in> set tr\<close> Cons.IH [of acc] show ?thesis by auto
    qed
  next
    case False
    show ?thesis
    proof (cases "m \<le> Suc (length acc)")
      case True
      with \<open>k \<notin> set tr\<close>
      have "filter_repos m tr acc (k # ks) = acc @ take 1 (filter (\<lambda>k. k \<notin> set tr) (k # ks))"
        by simp
      then show ?thesis by blast
    next
      case False
      from Cons.IH [of "acc @ [k]"] obtain n where
        "filter_repos m tr (acc @ [k]) ks = (acc @ [k]) @ take n (filter (\<lambda>k. k \<notin> set tr) ks)"
        by blast
      with False \<open>k \<notin> set tr\<close> have
        "filter_repos m tr acc (k # ks) = acc @ take (Suc n) (filter (\<lambda>k. k \<notin> set tr) (k # ks))"
        by simp
      then show ?thesis by blast
    qed
  qed
qed

lemma filter_repos_take:
  "length acc < m \<Longrightarrow>
   filter_repos m tr acc ks = acc @ take (m - length acc) (filter (\<lambda>k. k \<notin> set tr) ks)"
proof (induction ks arbitrary: acc)
  case Nil
  then show ?case by simp
next
  case (Cons k ks)
  show ?case
  proof (cases "k \<in> set tr")
    case True
    with Cons show ?thesis by simp
  next
    case False
    show ?thesis
    proof (cases "m \<le> Suc (length acc)")
      case True
      with Cons.prems have "m - length acc = 1" by simp
      with True False show ?thesis by simp
    next
      case False
      then have "length (acc @ [k]) < m" by simp
      from Cons.IH [OF this] False \<open>k \<notin> set tr\<close> Cons.prems show ?thesis
        by (simp add: Suc_diff_Suc take_Suc_Cons [symmetric] del: take_Suc_Cons)
    qed
  qed
qed

lemma group_keys_sorted: "sorted (group_keys rs)"
  by (simp add: group_keys_def)

lemma group_keys_distinct: "distinct (group_keys rs)"
  by (simp add: group_keys_def)

lemma set_group_keys: "set (group_keys rs) = set (dropna (map name_repo rs))"
  by (simp add: group_keys_def)

lemma eligible_keys:
  "filter (\<lambda>k. k \<notin> set tr) (group_keys (rows data)) = sorted_list_of_set (eligible data tr)"
proof -
  let ?xs = "filter (\<lambda>k. k \<notin> set tr) (group_keys (rows data))"
  have "sorted ?xs" by (simp add: group_keys_sorted sorted_wrt_filter)
  moreover have "distinct ?xs" by (simp add: group_keys_distinct)
  moreover have "set ?xs = eligible data tr" by (auto simp: eligible_def set_group_keys)
  ultimately show ?thesis
    by (metis sorted_list_of_set.idem_if_sorted_distinct)
qed

lemma finite_eligible: "finite (eligible data tr)"
  by (simp add: eligible_def)

text \<open>
  Claim C6. For a corpus with a \<open>name_repo\<close> column and a non-empty viral
  list, \<open>load_non_trending_repositories\<close> returns without an error a list of
  distinct repositories of the corpus that are not viral; the list is as long
  as the viral list when the corpus has at least that many eligible
  repositories, and strictly shorter otherwise.
\<close>

theorem non_trending_balanced:
  assumes "trending_repos \<noteq> []" and "''name_repo'' \<in> set (columns data)"
  shows "\<exists>sel. load_non_trending_repositories data trending_repos = Inr sel
     \<and> distinct sel \<and> set sel \<subseteq> eligible data trending_repos
     \<and> (if length trending_repos \<le> card (eligible data trending_repos)
        then length sel = length trending_repos
        else length sel < length trending_repos)"
proof -
  let ?E = "eligible data trending_repos"
  let ?sel = "take (length trending_repos) (sorted_list_of_set ?E)"
  from assms(1) have "length ([]::string list) < length trending_repos" by simp
  from filter_repos_take [OF this, of trending_repos "group_keys (rows data)"] assms(2)
  have eq: "load_non_trending_repositories data trending_repos = Inr ?sel"
    by (simp add: load_non_trending_repositories_def eligible_keys)
  have d: "distinct ?sel" by (simp add: distinct_take)
  have s: "set ?sel \<subseteq> ?E"
    using set_take_subset [of "length trending_repos" "sorted_list_of_set ?E"]
    by (simp add: finite_eligible)
  have l: "length ?sel = min (card ?E) (length trending_repos)"
    by (simp add: finite_eligible)
  from eq d s l show ?thesis by (auto simp: min_def)
qed

text \<open>
  The theorem at the corpus of two repositories: with a viral list of one name
  two repositories are eligible and one is selected; with a viral list of three
  names, one of them in the corpus, one repository is eligible and the list
  selected is shorter than three.
\<close>

theorem non_trending_balanced_witness:
  "[''t/t''] \<noteq> ([]::string list) \<and> ''name_repo'' \<in> set (columns order_corpus)
   \<and> (\<exists>sel. load_non_trending_repositories order_corpus [''t/t''] = Inr sel
        \<and> set sel \<subseteq> eligible order_corpus [''t/t''] \<and> length sel = 1)
   \<and> [''t/t'', ''a/y'', ''u/u''] \<noteq> ([]::string list)
   \<and> (\<exists>sel. load_non_trending_repositories order_corpus [''t/t'', ''a/y'', ''u/u''] = Inr sel
        \<and> length sel < 3)"
proof -
  have h1: "[''t/t''] \<noteq> ([]::string list)" by simp
  have h2: "''name_repo'' \<in> set (columns order_corpus)" by code_simp
  have c: "card (eligible order_corpus [''t/t'']) = 2" by code_simp
  have h1': "[''t/t'', ''a/y'', ''u/u''] \<noteq> ([]::string list)" by simp
  have c': "card (eligible order_corpus [''t/t'', ''a/y'', ''u/u'']) = 1" by code_simp
  from non_trending_balanced [OF h1 h2] c
  have a: "\<exists>sel. load_non_trending_repositories order_corpus [''t/t''] = Inr sel
        \<and> set sel \<subseteq> eligible order_corpus [''t/t''] \<and> length sel = 1"
    by auto
  from non_trending_balanced [OF h1' h2] c'
  have b: "\<exists>sel. load_non_trending_repositories order_corpus [''t/t'', ''a/y'', ''u/u''] = Inr sel
        \<and> length sel < 3"
    by auto
  from a b h1 h2 h1' show ?thesis by blast
qed

text \<open>
  Claim C7 as stated fails: in the corpus \<open>b/x\<close> occurs before \<open>a/y\<close>, and
  with one viral repository the function selects \<open>a/y\<close>, while the first
  eligible name in order of first occurrence is \<open>b/x\<close>.
\<close>

theorem first_encountered_counterexample:
  "load_non_trending_repositories order_corpus [''t/t''] = Inr [''a/y'']
   \<and> filter (\<lambda>n. n \<notin> set [''t/t'']) (first_encountered order_corpus) ! 0 = ''b/x''"
  by code_simp

text \<open>
  Claim C7, amended. The selected repositories appear in ascending order of
  name: the i-th selected name is the i-th eligible repository of the corpus in
  that order.
\<close>

theorem non_trending_in_name_order:
  assumes "load_non_trending_repositories data trending_repos = Inr sel" and "i < length sel"
  shows "sel ! i = sorted_list_of_set (eligible data trending_repos) ! i"
proof -
  from assms(1)
  have sel: "sel = filter_repos (length trending_repos) trending_repos [] (group_keys (rows data))"
    by (auto simp: load_non_trending_repositories_def split: if_splits)
  from filter_repos_prefix [of "length trending_repos" trending_repos "[]" "group_keys (rows data)"]
  obtain n where "sel = take n (sorted_list_of_set (eligible data trending_repos))"
    unfolding sel eligible_keys by auto
  with assms(2) show ?thesis by simp
qed

text \<open>The theorem at the same corpus with two viral names, neither in the corpus.\<close>

theorem non_trending_in_name_order_witness:
  "load_non_trending_repositories order_corpus [''t/t'', ''u/u''] = Inr [''a/y'', ''b/x'']
   \<and> (1::nat) < length [''a/y'', ''b/x'']
   \<and> sorted_list_of_set (eligible order_corpus [''t/t'', ''u/u'']) ! 1 = ''b/x''"
proof -
  have h1: "load_non_trending_repositories order_corpus [''t/t'', ''u/u''] = Inr [''a/y'', ''b/x'']"
    by code_simp
  have h2: "(1::nat) < length [''a/y'', ''b/x'']" by simp
  from non_trending_in_name_order [OF h1 h2] h1 h2 show ?thesis by simp
qed

section \<open>Order and gaps in the normalized table\<close>

lemma relabel_rows:
  "\<exists>f. rows (relabel df) = map f (rows df)
     \<and> (\<forall>r. idx (f r) = idx r \<and> id_repo (f r) = id_repo r
            \<and> created_at (f r) = created_at r \<and> time_diff (f r) = time_diff r)"
proof (cases "''type_event'' \<in> set (columns df)")
  case True
  then have "rows (relabel df) = map (relabel_row (columns df)) (rows df)"
    by (simp add: relabel_def)
  moreover have "\<forall>r. idx (relabel_row (columns df) r) = idx r
      \<and> id_repo (relabel_row (columns df) r) = id_repo r
      \<and> created_at (relabel_row (columns df) r) = created_at r
      \<and> time_diff (relabel_row (columns df) r) = time_diff r"
    by (simp add: relabel_row_def)
  ultimately show ?thesis by blast
next
  case False
  then have "rows (relabel df) = map (\<lambda>r. r) (rows df)"
    by (simp add: relabel_def)
  then show ?thesis by blast
qed

lemma rows_clean_data:
  assumes "''id_repo'' \<in> set (columns df)" and "''created_at'' \<in> set (columns df)"
  shows "rows (sort_and_diff (convert_created_at parse df))
    = groupby_diff Map.empty
        (sort_values (map (\<lambda>r. r\<lparr>created_at := to_datetime parse (created_at r)\<rparr>) (rows df)))"
  using assms by (simp add: sort_and_diff_def convert_created_at_def)

lemma groupby_diff_filter:
  "filter (\<lambda>r. id_repo r = Some g) (groupby_diff seen rs)
     = series_diff (seen g) (filter (\<lambda>r. id_repo r = Some g) rs)"
proof (induction rs arbitrary: seen)
  case Nil
  show ?case by simp
next
  case (Cons r rs)
  show ?case
  proof (cases "id_repo r")
    case None
    with Cons.IH [of seen] show ?thesis by simp
  next
    case (Some h)
    then show ?thesis by (cases "h = g") (simp_all add: Cons.IH)
  qed
qed

lemma length_series_diff: "length (series_diff p xs) = length xs"
  by (induction xs arbitrary: p) simp_all

lemma created_at_series_diff: "map created_at (series_diff p xs) = map created_at xs"
  by (induction xs arbitrary: p) simp_all

lemma time_diff_series_diff:
  "k < length xs \<Longrightarrow>
   time_diff (series_diff p xs ! k)
     = (if k = 0 then (case p of None \<Rightarrow> None
                       | Some q \<Rightarrow> total_seconds (timedelta (created_at (xs ! 0)) q))
        else total_seconds (timedelta (created_at (xs ! k)) (created_at (xs ! (k - 1)))))"
proof (induction xs arbitrary: p k)
  case Nil
  then show ?case by simp
next
  case (Cons x xs)
  show ?case
  proof (cases k)
    case 0
    then show ?thesis by (simp split: option.split)
  next
    case (Suc j)
    with Cons.prems have "j < length xs" by simp
    from Cons.IH [OF this, of "Some (created_at x)"] Suc show ?thesis
      by (cases j) simp_all
  qed
qed

lemma total_seconds_timedelta: "total_seconds (timedelta cur prev) = gap_seconds prev cur"
  by (simp add: total_seconds_def timedelta_def gap_seconds_def split: tcell.split)

lemma not_after_ts_key: "not_after a b \<longleftrightarrow> ts_key a \<le> ts_key b"
  by (cases a; cases b) (simp_all add: not_after_def ts_key_def less_eq_prod_def)

lemma sorted_group:
  "sorted_wrt (\<lambda>a b. not_after (created_at a) (created_at b))
     (filter (\<lambda>r. id_repo r = Some g) (sort_values rs))"
proof -
  let ?G = "filter (\<lambda>r. id_repo r = Some g) (sort_values rs)"
  have "sorted (map row_key ?G)"
    by (simp add: sort_values_def sorted_filter)
  then have "sorted_wrt (\<lambda>a b. row_key a \<le> row_key b) ?G"
    by (simp add: sorted_map)
  moreover have "\<And>a b. a \<in> set ?G \<Longrightarrow> b \<in> set ?G \<Longrightarrow> row_key a \<le> row_key b
      \<Longrightarrow> not_after (created_at a) (created_at b)"
    by (auto simp: row_key_def less_eq_prod_def not_after_ts_key)
  ultimately show ?thesis
    by (rule sorted_wrt_mono_rel [rotated])
qed

text \<open>
  Claim C3. For a table with the \<open>id_repo\<close> and \<open>created_at\<close> columns, the
  rows of each repository id in the table returned by \<open>clean_data\<close> are in
  non-decreasing order of \<open>created_at\<close> (missing timestamps last), the first
  row of the group has a missing \<open>time_diff\<close>, and every later row has the
  seconds between its \<open>created_at\<close> and that of the row before it in the
  group, which is missing when either timestamp is missing.
\<close>

theorem clean_data_group_order_and_gaps:
  assumes "''id_repo'' \<in> set (columns df)" and "''created_at'' \<in> set (columns df)"
  shows "let grp = filter (\<lambda>r. id_repo r = Some g) (rows (clean_data parse df)) in
     sorted_wrt (\<lambda>a b. not_after (created_at a) (created_at b)) grp
     \<and> (\<forall>k < length grp.
          time_diff (grp ! k)
            = (if k = 0 then None
               else gap_seconds (created_at (grp ! (k - 1))) (created_at (grp ! k))))"
proof -
  let ?S = "sort_values (map (\<lambda>r. r\<lparr>created_at := to_datetime parse (created_at r)\<rparr>) (rows df))"
  let ?G = "filter (\<lambda>r. id_repo r = Some g) ?S"
  let ?D = "series_diff None ?G"
  obtain f where rel: "rows (clean_data parse df) = map f (groupby_diff Map.empty ?S)"
    and f: "\<And>r. id_repo (f r) = id_repo r" "\<And>r. created_at (f r) = created_at r"
      "\<And>r. time_diff (f r) = time_diff r"
    using relabel_rows [of "sort_and_diff (convert_created_at parse df)"]
    unfolding clean_data_def rows_clean_data [OF assms] by auto
  have grp: "filter (\<lambda>r. id_repo r = Some g) (rows (clean_data parse df)) = map f ?D"
    by (simp add: rel filter_map comp_def f groupby_diff_filter)
  have ca: "map created_at (map f ?D) = map created_at ?G"
    by (simp add: comp_def f created_at_series_diff)
  have "sorted_wrt (\<lambda>a b. not_after (created_at a) (created_at b)) ?G"
    by (rule sorted_group)
  then have "sorted_wrt not_after (map created_at ?G)"
    by (simp add: sorted_wrt_map)
  then have "sorted_wrt not_after (map created_at (map f ?D))"
    by (simp only: ca)
  then have s: "sorted_wrt (\<lambda>a b. not_after (created_at a) (created_at b)) (map f ?D)"
    by (simp only: sorted_wrt_map)
  have t: "time_diff (map f ?D ! k)
            = (if k = 0 then None
               else gap_seconds (created_at (map f ?D ! (k - 1))) (created_at (map f ?D ! k)))"
    if k: "k < length (map f ?D)" for k
  proof -
    from k have kG: "k < length ?G" by (simp add: length_series_diff)
    have nth: "created_at (map f ?D ! j) = created_at (?G ! j)" if "j < length ?G" for j
      using that arg_cong [OF ca, of "\<lambda>xs. xs ! j"] by (simp add: length_series_diff)
    have "time_diff (map f ?D ! k) = time_diff (?D ! k)"
      using kG by (simp add: length_series_diff f)
    also have "\<dots> = (if k = 0 then None
        else gap_seconds (created_at (?G ! (k - 1))) (created_at (?G ! k)))"
      using time_diff_series_diff [OF kG, of None] by (simp add: total_seconds_timedelta)
    also have "\<dots> = (if k = 0 then None
        else gap_seconds (created_at (map f ?D ! (k - 1))) (created_at (map f ?D ! k)))"
      using kG by (simp add: nth)
    finally show ?thesis .
  qed
  from s t show ?thesis unfolding grp Let_def by blast
qed

text \<open>
  The theorem at the corpus of two repositories, for repository 1: its events
  at 0, 10 and 10 seconds get the gaps missing, 10 and 0.
\<close>

theorem clean_data_group_order_and_gaps_witness:
  "''id_repo'' \<in> set (columns order_df) \<and> ''created_at'' \<in> set (columns order_df)
   \<and> (let grp = filter (\<lambda>r. id_repo r = Some 1) (rows (clean_data scenario_parse order_df)) in
        sorted_wrt (\<lambda>a b. not_after (created_at a) (created_at b)) grp
        \<and> (\<forall>k < length grp.
             time_diff (grp ! k)
               = (if k = 0 then None
                  else gap_seconds (created_at (grp ! (k - 1))) (created_at (grp ! k)))))
   \<and> map time_diff (filter (\<lambda>r. id_repo r = Some 1) (rows (clean_data scenario_parse order_df)))
       = [None, Some 10, Some 0]"
proof -
  have h1: "''id_repo'' \<in> set (columns order_df)" by code_simp
  have h2: "''created_at'' \<in> set (columns order_df)" by code_simp
  have v: "map time_diff (filter (\<lambda>r. id_repo r = Some 1)
             (rows (clean_data scenario_parse order_df))) = [None, Some 10, Some 0]"
    by code_simp
  from clean_data_group_order_and_gaps [OF h1 h2, of 1 scenario_parse] h1 h2 v
  show ?thesis by blast
qed

lemma groupby_diff_stable:
  "map idx (filter (\<lambda>r. id_repo r = g \<and> created_at r = c) (groupby_diff seen rs))
     = map idx (filter (\<lambda>r. id_repo r = g \<and> created_at r = c) rs)"
  by (induction rs arbitrary: seen) (auto split: option.splits)

lemma sort_values_stable:
  "filter (\<lambda>r. id_repo r = g \<and> created_at r = c) (sort_values rs)
     = filter (\<lambda>r. id_repo r = g \<and> created_at r = c) rs"
proof -
  let ?Q = "\<lambda>r. id_repo r = g \<and> created_at r = c"
  let ?k = "(id_key g, ts_key c)"
  have Q: "filter ?Q (filter (\<lambda>r. row_key r = ?k) xs) = filter ?Q xs" for xs
    unfolding filter_filter by (rule filter_cong) (auto simp: row_key_def)
  have "filter ?Q (sort_key row_key rs) = filter ?Q (filter (\<lambda>r. row_key r = ?k) (sort_key row_key rs))"
    by (simp only: Q)
  also have "\<dots> = filter ?Q (filter (\<lambda>r. row_key r = ?k) rs)"
    by (simp only: sort_key_stable)
  also have "\<dots> = filter ?Q rs"
    by (rule Q)
  finally show ?thesis by (simp add: sort_values_def)
qed

text \<open>
  Claim C4. The sort of \<open>clean_data\<close> is stable: for a table with the
  \<open>id_repo\<close> and \<open>created_at\<close> columns and any repository id and timestamp,
  the rows with that id and that timestamp stand in the returned table in the
  order they had in the input, as their index labels show.
\<close>

theorem clean_data_sort_stable:
  assumes "''id_repo'' \<in> set (columns df)" and "''created_at'' \<in> set (columns df)"
  shows "map idx (filter (\<lambda>r. id_repo r = g \<and> created_at r = c) (rows (clean_data parse df)))
       = map idx (filter (\<lambda>r. id_repo r = g \<and> to_datetime parse (created_at r) = c) (rows df))"
proof -
  let ?C = "map (\<lambda>r. r\<lparr>created_at := to_datetime parse (created_at r)\<rparr>) (rows df)"
  let ?Q = "\<lambda>r. id_repo r = g \<and> created_at r = c"
  obtain f where rel: "rows (clean_data parse df) = map f (groupby_diff Map.empty (sort_values ?C))"
    and f: "\<And>r. id_repo (f r) = id_repo r" "\<And>r. created_at (f r) = created_at r"
      "\<And>r. idx (f r) = idx r"
    using relabel_rows [of "sort_and_diff (convert_created_at parse df)"]
    unfolding clean_data_def rows_clean_data [OF assms] by auto
  have "map idx (filter ?Q (rows (clean_data parse df)))
      = map idx (filter ?Q (groupby_diff Map.empty (sort_values ?C)))"
    by (simp add: rel filter_map comp_def f)
  also have "\<dots> = map idx (filter ?Q (sort_values ?C))"
    by (rule groupby_diff_stable)
  also have "\<dots> = map idx (filter ?Q ?C)"
    by (simp only: sort_values_stable)
  also have "\<dots> = map idx (filter (\<lambda>r. id_repo r = g \<and> to_datetime parse (created_at r) = c) (rows df))"
    by (simp add: filter_map comp_def)
  finally show ?thesis .
qed

text \<open>
  The theorem at the corpus of two repositories: the two events of repository
  1 at 10 seconds, labelled 0 and 1, keep their order.
\<close>

theorem clean_data_sort_stable_witness:
  "''id_repo'' \<in> set (columns order_df) \<and> ''created_at'' \<in> set (columns order_df)
   \<and> map idx (filter (\<lambda>r. id_repo r = Some 1 \<and> created_at r = Stamp 10000000000)
               (rows (clean_data scenario_parse order_df))) = [0, 1]"
proof -
  have h1: "''id_repo'' \<in> set (columns order_df)" by code_simp
  have h2: "''created_at'' \<in> set (columns order_df)" by code_simp
  have v: "map idx (filter (\<lambda>r. id_repo r = Some 1
               \<and> to_datetime scenario_parse (created_at r) = Stamp 10000000000)
             (rows order_df)) = [0, 1]"
    by code_simp
  from clean_data_sort_stable [OF h1 h2, of "Some 1" "Stamp 10000000000" scenario_parse] h1 h2 v
  show ?thesis by simp
qed

section \<open>Density of the directly-follows graph\<close>

lemma set_unique: "set (unique xs) = set xs"
  by (induction xs rule: unique.induct) auto

lemma distinct_unique: "distinct (unique xs)"
  by (induction xs rule: unique.induct) (auto simp: set_unique)

lemma card_off_diagonal:
  assumes "finite N"
  shows "card {(a, b). a \<in> N \<and> b \<in> N \<and> a \<noteq> b} = card N * (card N - 1)"
proof -
  let ?D = "(\<lambda>a. (a, a)) ` N"
  have eq: "{(a, b). a \<in> N \<and> b \<in> N \<and> a \<noteq> b} = N \<times> N - ?D" by auto
  have "card ?D = card N" by (simp add: card_image inj_on_def)
  moreover have "?D \<subseteq> N \<times> N" by auto
  moreover have "finite ?D" using assms by simp
  ultimately have "card (N \<times> N - ?D) = card N * card N - card N"
    by (simp add: card_Diff_subset card_cartesian_product)
  also have "\<dots> = card N * (card N - 1)"
    by (simp add: diff_mult_distrib2)
  finally show ?thesis by (simp only: eq)
qed

lemma dfg_edge_count:
  fixes ks :: "('a \<times> 'a) list"
  assumes "distinct ks"
  defines "n \<equiv> card (set (map fst ks @ map snd ks))"
  shows "length ks \<le> n * n"
    and "(\<forall>e \<in> set ks. fst e \<noteq> snd e) \<Longrightarrow> length ks \<le> n * (n - 1)"
proof -
  let ?N = "set (map fst ks @ map snd ks)"
  have fin: "finite ?N" by simp
  have len: "length ks = card (set ks)"
    using assms(1) by (simp add: distinct_card)
  have "set ks \<subseteq> ?N \<times> ?N" by force
  then have "card (set ks) \<le> card (?N \<times> ?N)"
    by (intro card_mono) simp_all
  then show "length ks \<le> n * n"
    by (simp add: len n_def card_cartesian_product)
  assume "\<forall>e \<in> set ks. fst e \<noteq> snd e"
  then have "set ks \<subseteq> {(a, b). a \<in> ?N \<and> b \<in> ?N \<and> a \<noteq> b}" by force
  moreover have "finite {(a, b). a \<in> ?N \<and> b \<in> ?N \<and> a \<noteq> b}"
    by (rule finite_subset [of _ "?N \<times> ?N"]) auto
  ultimately have "card (set ks) \<le> card {(a, b). a \<in> ?N \<and> b \<in> ?N \<and> a \<noteq> b}"
    by (intro card_mono)
  then show "length ks \<le> n * (n - 1)"
    by (simp only: len n_def card_off_diagonal [OF fin])
qed

lemma keys_dfg_apply: "distinct (map fst (dfg_apply lg))"
  by (simp add: dfg_apply_def Let_def comp_def distinct_unique)

lemma square_le_twice:
  fixes n :: nat
  assumes "1 < n"
  shows "n * n \<le> 2 * (n * (n - 1))"
proof -
  from assms have "n \<le> 2 * (n - 1)" by arith
  then have "n * n \<le> n * (2 * (n - 1))" by (rule mult_le_mono2)
  then show ?thesis by (simp only: mult.left_commute)
qed

lemma ratio_le:
  fixes m k :: nat
  assumes "0 < k" and "m \<le> c * k"
  shows "(of_nat m / of_nat k :: rat) \<le> of_nat c"
proof -
  have "(of_nat m :: rat) \<le> of_nat (c * k)" using assms(2) by (simp only: of_nat_le_iff)
  then have "(of_nat m :: rat) \<le> of_nat c * of_nat k" by simp
  moreover have "(0::rat) < of_nat k" using assms(1) by simp
  ultimately show ?thesis by (simp add: divide_le_eq)
qed

text \<open>
  Claim C2 as stated fails: in a log where a push directly follows a push the
  graph has the edges (Push, Push), (Push, Star) and (Star, Push) on 2 nodes, and
  the density is 3/2.
\<close>

theorem density_above_one:
  "num_nodi (extract_dfg_metrics self_loop_log) = 2
   \<and> densita_dfg (extract_dfg_metrics self_loop_log) = 3 / 2
   \<and> \<not> densita_dfg (extract_dfg_metrics self_loop_log) \<le> 1"
  by code_simp

text \<open>
  Claim C2, amended. For every log, when \<open>num_nodi > 1\<close> the density lies
  between 0 and 2, and between 0 and 1 when no activity directly follows itself
  (the graph has no edge from a node to itself); when \<open>num_nodi \<le> 1\<close> the
  density is 0.
\<close>

theorem density_bounds:
  "let r = extract_dfg_metrics lg in
     (num_nodi r > 1 \<longrightarrow>
        0 \<le> densita_dfg r \<and> densita_dfg r \<le> 2
        \<and> (loop_free (dfg_apply lg) \<longrightarrow> densita_dfg r \<le> 1))
     \<and> (num_nodi r \<le> 1 \<longrightarrow> densita_dfg r = 0)"
proof -
  let ?ks = "map fst (dfg_apply lg)"
  let ?n = "card (set (map fst ?ks @ map snd ?ks))"
  let ?m = "length (dfg_apply lg)"
  let ?d = "(if ?n > 1 then of_nat ?m / of_nat (?n * (?n - 1)) else 0) :: rat"
  have r: "extract_dfg_metrics lg = \<lparr>num_nodi = ?n, num_archi = ?m, densita_dfg = ?d\<rparr>"
    by (simp only: extract_dfg_metrics_def Let_def)
  have m: "?m = length ?ks" by simp
  have le2: "?d \<le> 2" if n: "?n > 1"
  proof -
    have "?m \<le> ?n * ?n"
      unfolding m by (rule dfg_edge_count(1) [OF keys_dfg_apply])
    also have "?n * ?n \<le> 2 * (?n * (?n - 1))" using n by (rule square_le_twice)
    finally have "?m \<le> 2 * (?n * (?n - 1))" .
    moreover have "0 < ?n * (?n - 1)" using n by simp
    ultimately have "(of_nat ?m / of_nat (?n * (?n - 1)) :: rat) \<le> of_nat 2"
      by (rule ratio_le [rotated])
    with n show ?thesis by simp
  qed
  have le1: "?d \<le> 1" if n: "?n > 1" and lf: "loop_free (dfg_apply lg)"
  proof -
    from lf have "\<forall>e \<in> set ?ks. fst e \<noteq> snd e"
      by (auto simp: loop_free_def list_all_iff)
    then have "?m \<le> ?n * (?n - 1)"
      unfolding m by (rule dfg_edge_count(2) [OF keys_dfg_apply])
    then have "?m \<le> 1 * (?n * (?n - 1))" by simp
    moreover have "0 < ?n * (?n - 1)" using n by simp
    ultimately have "(of_nat ?m / of_nat (?n * (?n - 1)) :: rat) \<le> of_nat 1"
      by (rule ratio_le [rotated])
    with n show ?thesis by simp
  qed
  have ge0: "0 \<le> ?d" by simp
  have z: "?d = 0" if "?n \<le> 1" using that by simp
  from le2 le1 ge0 z show ?thesis
    unfolding r Let_def by simp
qed

text \<open>
  The theorem at the log of the scenario, which has no such edge, and at the
  log of a single event, whose graph is empty.
\<close>

theorem density_bounds_witness:
  "num_nodi (extract_dfg_metrics scenario_log) > 1 \<and> loop_free (dfg_apply scenario_log)
   \<and> 0 \<le> densita_dfg (extract_dfg_metrics scenario_log)
   \<and> densita_dfg (extract_dfg_metrics scenario_log) \<le> 1
   \<and> num_nodi (extract_dfg_metrics [\<lparr>concept_name = ''PushEvent'', time_timestamp = 0\<rparr>]) \<le> 1
   \<and> densita_dfg (extract_dfg_metrics [\<lparr>concept_name = ''PushEvent'', time_timestamp = 0\<rparr>]) = 0"
proof -
  have h1: "num_nodi (extract_dfg_metrics scenario_log) > 1" by code_simp
  have h2: "loop_free (dfg_apply scenario_log)" by code_simp
  have h3: "num_nodi (extract_dfg_metrics [\<lparr>concept_name = ''PushEvent'', time_timestamp = 0\<rparr>]) \<le> 1"
    by code_simp
  from density_bounds [of scenario_log]
    density_bounds [of "[\<lparr>concept_name = ''PushEvent'', time_timestamp = 0\<rparr>]"] h1 h2 h3
  show ?thesis by (simp add: Let_def)
qed

end
